theory Spec2Isabelle
  imports Complex_Main "HOL-Library.Signed_Division" "HOL-Library.Monad_Syntax"
begin

section \<open>The integer type \<open>T\<close>\<close>

text \<open>
  \<open>dd::Fraction<T>\<close> is a template over an integral type; \<open>main.cpp\<close> instantiates it
  at \<open>int32_t\<close> only, and that instantiation is the one embedded here. A value of
  \<open>T\<close> is an \<open>int\<close> between \<open>T_MIN\<close> and \<open>T_MAX\<close>. In C++ a signed operation whose
  mathematical result is not representable, a division or remainder by zero, and
  \<open>T_MIN / -1\<close>, \<open>T_MIN % -1\<close> have undefined behaviour: each arithmetic operator of the
  source is therefore a function to \<open>int option\<close>, \<open>None\<close> being undefined behaviour,
  and \<open>/\<close>, \<open>%\<close> truncate towards zero (\<open>sdiv\<close>, \<open>smod\<close>).
\<close>

definition T_MIN :: int where
  "T_MIN = - 2147483648"

definition T_MAX :: int where
  "T_MAX = 2147483647"

definition in_T :: "int \<Rightarrow> bool" where
  "in_T x \<longleftrightarrow> T_MIN \<le> x \<and> x \<le> T_MAX"

definition addT :: "int \<Rightarrow> int \<Rightarrow> int option" where
  "addT a b = (if in_T (a + b) then Some (a + b) else None)"

definition subT :: "int \<Rightarrow> int \<Rightarrow> int option" where
  "subT a b = (if in_T (a - b) then Some (a - b) else None)"

definition mulT :: "int \<Rightarrow> int \<Rightarrow> int option" where
  "mulT a b = (if in_T (a * b) then Some (a * b) else None)"

definition negT :: "int \<Rightarrow> int option" where
  "negT a = (if in_T (- a) then Some (- a) else None)"

definition divT :: "int \<Rightarrow> int \<Rightarrow> int option" where
  "divT a b = (if b = 0 \<or> (a = T_MIN \<and> b = - 1) then None else Some (a sdiv b))"

definition modT :: "int \<Rightarrow> int \<Rightarrow> int option" where
  "modT a b = (if b = 0 \<or> (a = T_MIN \<and> b = - 1) then None else Some (a smod b))"

section \<open>The class \<open>Fraction\<close>\<close>

record Fraction =
  m_num :: int
  m_den :: int

subsection \<open>\<open>PGCD\<close>: the greatest common divisor\<close>

text \<open>
  \<^verbatim>\<open>T r = a % b; while (r) { a = b; b = r; r = a % b; } return b;\<close>
  The loop is the recursive function \<open>PGCD_loop\<close> on the three variables; it stops
  with \<open>None\<close> where \<open>%\<close> is undefined.
\<close>

function PGCD_loop :: "int \<Rightarrow> int \<Rightarrow> int \<Rightarrow> int option" where
  "PGCD_loop a b r =
     (if r \<noteq> 0
      then (case modT b r of None \<Rightarrow> None | Some r' \<Rightarrow> PGCD_loop b r r')
      else Some b)"
  by pat_completeness auto

termination PGCD_loop
proof (relation "measure (\<lambda>(a, b, r). nat \<bar>r\<bar>)")
  show "wf (measure (\<lambda>(a, b, r). nat \<bar>r\<bar>))"
    by simp
next
  fix a b r r' :: int
  assume "r \<noteq> 0" and "modT b r = Some r'"
  then have "\<bar>r'\<bar> < \<bar>r\<bar>"
    using smod_int_range [of r b] by (auto simp: modT_def split: if_splits)
  then show "((b, r, r'), (a, b, r)) \<in> measure (\<lambda>(a, b, r). nat \<bar>r\<bar>)"
    by simp
qed

declare PGCD_loop.simps [simp del]

definition PGCD :: "int \<Rightarrow> int \<Rightarrow> int option" where
  "PGCD a b = do { r \<leftarrow> modT a b; PGCD_loop a b r }"

subsection \<open>\<open>reduction\<close>\<close>

text \<open>
  \<^verbatim>\<open>if (m_den != 0) { if (m_den < 0) { m_num *= -1; m_den *= -1; }\<close>
  \<^verbatim>\<open>  T div {1};\<close>
  \<^verbatim>\<open>  if (m_num >= 0) div = PGCD (m_num, m_den); else div = PGCD (-1*m_num, m_den);\<close>
  \<^verbatim>\<open>  m_num /= div; m_den /= div; }\<close>
  A private member function that reads and writes the receiver only: a function from
  the receiver's value to its new value.
\<close>

definition reduction :: "Fraction \<Rightarrow> Fraction option" where
  "reduction f =
     (if m_den f \<noteq> 0 then do {
        f1 \<leftarrow> (if m_den f < 0 then do {
                 n \<leftarrow> mulT (m_num f) (- 1);
                 d \<leftarrow> mulT (m_den f) (- 1);
                 Some \<lparr>m_num = n, m_den = d\<rparr>
               } else Some f);
        dv \<leftarrow> (if m_num f1 \<ge> 0 then PGCD (m_num f1) (m_den f1)
                else do { a \<leftarrow> mulT (- 1) (m_num f1); PGCD a (m_den f1) });
        n \<leftarrow> divT (m_num f1) dv;
        d \<leftarrow> divT (m_den f1) dv;
        Some \<lparr>m_num = n, m_den = d\<rparr>
      } else Some f)"

text \<open>
  \<open>reduction\<close> is the only caller of \<open>PGCD\<close>. \<open>PGCD_call f\<close> is the call it makes on
  \<open>f\<close>: the fraction after the sign fix and the two arguments passed; \<open>None\<close> when no
  call is made (zero denominator) or the sign fix overflows before it. The lemma
  \<open>reduction_calls_PGCD\<close> below shows that \<open>reduction\<close> is this call followed by the two
  divisions.
\<close>

definition PGCD_call :: "Fraction \<Rightarrow> (Fraction \<times> int \<times> int) option" where
  "PGCD_call f =
     (if m_den f \<noteq> 0 then do {
        f1 \<leftarrow> (if m_den f < 0 then do {
                 n \<leftarrow> mulT (m_num f) (- 1);
                 d \<leftarrow> mulT (m_den f) (- 1);
                 Some \<lparr>m_num = n, m_den = d\<rparr>
               } else Some f);
        a \<leftarrow> (if m_num f1 \<ge> 0 then Some (m_num f1) else mulT (- 1) (m_num f1));
        Some (f1, a, m_den f1)
      } else None)"

subsection \<open>Constructors\<close>

text \<open>
  \<^verbatim>\<open>Fraction<T> (T num=0): m_num{num}, m_den{1}\<close> and
  \<^verbatim>\<open>Fraction<T> (T num, T den): m_num{num}\<close>
  \<^verbatim>\<open>{ if (den > 0) { m_den=den; } else { m_den=-den; m_num *=-1; } reduction (); }\<close>
\<close>

definition Fraction1 :: "int \<Rightarrow> Fraction" where
  "Fraction1 num = \<lparr>m_num = num, m_den = 1\<rparr>"

definition Fraction2 :: "int \<Rightarrow> int \<Rightarrow> Fraction option" where
  "Fraction2 num den = do {
     f \<leftarrow> (if den > 0 then Some \<lparr>m_num = num, m_den = den\<rparr>
           else do {
             d \<leftarrow> negT den;
             n \<leftarrow> mulT num (- 1);
             Some \<lparr>m_num = n, m_den = d\<rparr>
           });
     reduction f
   }"

subsection \<open>Classification\<close>

definition isFinite :: "Fraction \<Rightarrow> bool" where
  "isFinite f \<longleftrightarrow> m_den f \<noteq> 0"

definition isInf :: "Fraction \<Rightarrow> bool" where
  "isInf f \<longleftrightarrow> m_den f = 0 \<and> m_num f \<noteq> 0"

definition isNan :: "Fraction \<Rightarrow> bool" where
  "isNan f \<longleftrightarrow> m_den f = 0 \<and> m_num f = 0"

subsection \<open>The compound assignments \<open>+=\<close>, \<open>-=\<close>, \<open>*=\<close>, \<open>/=\<close>\<close>

text \<open>
  The receiver \<open>*this\<close> is mutated and the argument \<open>f\<close> is a reference, which may
  refer to the receiver itself (\<open>x /= x\<close>). The objects therefore live in a store,
  \<open>this\<close> and \<open>f\<close> are addresses, and each assignment of the source is one update
  of the store, so that a later read through \<open>f\<close> sees an earlier write to \<open>*this\<close>
  when the two are the same object. The operator returns a copy of \<open>*this\<close>, which
  is the receiver's cell in the resulting store.
\<close>

type_synonym addr = nat

type_synonym store = "addr \<Rightarrow> Fraction"

definition set_num :: "addr \<Rightarrow> int \<Rightarrow> store \<Rightarrow> store" where
  "set_num this v s = s(this := (s this)\<lparr>m_num := v\<rparr>)"

definition set_den :: "addr \<Rightarrow> int \<Rightarrow> store \<Rightarrow> store" where
  "set_den this v s = s(this := (s this)\<lparr>m_den := v\<rparr>)"

definition reduction_at :: "addr \<Rightarrow> store \<Rightarrow> store option" where
  "reduction_at this s = do { r \<leftarrow> reduction (s this); Some (s(this := r)) }"

definition op_add_assign :: "addr \<Rightarrow> addr \<Rightarrow> store \<Rightarrow> store option" where
  "op_add_assign this f s = do {
     x \<leftarrow> mulT (m_num (s this)) (m_den (s f));
     y \<leftarrow> mulT (m_num (s f)) (m_den (s this));
     n \<leftarrow> addT x y;
     let s1 = set_num this n s;
     d \<leftarrow> mulT (m_den (s1 this)) (m_den (s1 f));
     let s2 = set_den this d s1;
     reduction_at this s2
   }"

definition op_sub_assign :: "addr \<Rightarrow> addr \<Rightarrow> store \<Rightarrow> store option" where
  "op_sub_assign this f s = do {
     x \<leftarrow> mulT (m_num (s this)) (m_den (s f));
     y \<leftarrow> mulT (m_num (s f)) (m_den (s this));
     n \<leftarrow> subT x y;
     let s1 = set_num this n s;
     d \<leftarrow> mulT (m_den (s1 this)) (m_den (s1 f));
     let s2 = set_den this d s1;
     reduction_at this s2
   }"

definition op_mul_assign :: "addr \<Rightarrow> addr \<Rightarrow> store \<Rightarrow> store option" where
  "op_mul_assign this f s = do {
     n \<leftarrow> mulT (m_num (s this)) (m_num (s f));
     let s1 = set_num this n s;
     d \<leftarrow> mulT (m_den (s1 this)) (m_den (s1 f));
     let s2 = set_den this d s1;
     reduction_at this s2
   }"

definition op_div_assign :: "addr \<Rightarrow> addr \<Rightarrow> store \<Rightarrow> store option" where
  "op_div_assign this f s = do {
     n \<leftarrow> mulT (m_num (s this)) (m_den (s f));
     let s1 = set_num this n s;
     d \<leftarrow> mulT (m_den (s1 this)) (m_num (s1 f));
     let s2 = set_den this d s1;
     reduction_at this s2
   }"

subsection \<open>The binary operators \<open>+\<close>, \<open>-\<close>, \<open>*\<close>, \<open>/\<close>\<close>

text \<open>
  \<^verbatim>\<open>Fraction<T> f {f1}; return (f += f2);\<close>
  The local \<open>f\<close> is a fresh object (address \<open>0\<close>), distinct from the object \<open>f2\<close>
  refers to (address \<open>1\<close>).
\<close>

definition locals :: "Fraction \<Rightarrow> Fraction \<Rightarrow> store" where
  "locals f1 f2 = (\<lambda>p. if p = 0 then f1 else f2)"

definition op_add :: "Fraction \<Rightarrow> Fraction \<Rightarrow> Fraction option" where
  "op_add f1 f2 = do { s \<leftarrow> op_add_assign 0 1 (locals f1 f2); Some (s 0) }"

definition op_sub :: "Fraction \<Rightarrow> Fraction \<Rightarrow> Fraction option" where
  "op_sub f1 f2 = do { s \<leftarrow> op_sub_assign 0 1 (locals f1 f2); Some (s 0) }"

definition op_mul :: "Fraction \<Rightarrow> Fraction \<Rightarrow> Fraction option" where
  "op_mul f1 f2 = do { s \<leftarrow> op_mul_assign 0 1 (locals f1 f2); Some (s 0) }"

definition op_div :: "Fraction \<Rightarrow> Fraction \<Rightarrow> Fraction option" where
  "op_div f1 f2 = do { s \<leftarrow> op_div_assign 0 1 (locals f1 f2); Some (s 0) }"

subsection \<open>Comparisons\<close>

definition op_eq :: "Fraction \<Rightarrow> Fraction \<Rightarrow> bool" where
  "op_eq f1 f2 \<longleftrightarrow> (m_num f1 = m_num f2) \<and> (m_den f1 = m_den f2)"

definition op_gt :: "Fraction \<Rightarrow> Fraction \<Rightarrow> bool option" where
  "op_gt f1 f2 = do {
     x \<leftarrow> mulT (m_num f1) (m_den f2);
     y \<leftarrow> mulT (m_num f2) (m_den f1);
     Some (x > y)
   }"

definition op_ne :: "Fraction \<Rightarrow> Fraction \<Rightarrow> bool" where
  "op_ne f1 f2 \<longleftrightarrow> \<not> op_eq f1 f2"

definition op_ge :: "Fraction \<Rightarrow> Fraction \<Rightarrow> bool option" where
  "op_ge f1 f2 = do { g \<leftarrow> op_gt f2 f1; Some (\<not> g) }"

definition op_lt :: "Fraction \<Rightarrow> Fraction \<Rightarrow> bool option" where
  "op_lt f1 f2 = op_gt f2 f1"

definition op_le :: "Fraction \<Rightarrow> Fraction \<Rightarrow> bool option" where
  "op_le f1 f2 = do { g \<leftarrow> op_gt f1 f2; Some (\<not> g) }"

subsection \<open>Output\<close>

text \<open>
  \<open>operator<<\<close> appends to the stream \<open>flux\<close>, a string here. The decimal printing of
  a \<open>T\<close> is the standard library's: \<open>show_int\<close> writes a minus sign for a negative
  value and then the digits, most significant first, with no padding.
\<close>

fun show_nat :: "nat \<Rightarrow> string" where
  "show_nat n =
     (if n < 10 then [''0123456789'' ! n]
      else show_nat (n div 10) @ [''0123456789'' ! (n mod 10)])"

declare show_nat.simps [simp del]

definition show_int :: "int \<Rightarrow> string" where
  "show_int i = (if i < 0 then ''-'' @ show_nat (nat (- i)) else show_nat (nat i))"

definition op_shl :: "string \<Rightarrow> Fraction \<Rightarrow> string" where
  "op_shl flux f =
     (if isNan f then flux @ ''NaN''
      else if isInf f then flux @ ''Inf''
      else flux @ show_int (m_num f) @ ''/'' @ show_int (m_den f))"

section \<open>Canonical form\<close>

text \<open>
  The invariants of the data model, in the specification's words: the denominator
  is not negative; a positive denominator comes with a numerator coprime to it, zero
  being the pair \<open>(0, 1)\<close>; a zero denominator encodes a non-finite value.
\<close>

definition canonical :: "Fraction \<Rightarrow> bool" where
  "canonical f \<longleftrightarrow>
     0 \<le> m_den f \<and>
     (0 < m_den f \<longrightarrow> gcd \<bar>m_num f\<bar> (m_den f) = 1 \<and> (m_num f = 0 \<longrightarrow> m_den f = 1)) \<and>
     (m_den f = 0 \<longrightarrow> isInf f \<or> isNan f)"

section \<open>Arithmetic of \<open>T\<close>\<close>

lemma in_T_simps: "in_T 0" "in_T 1" "in_T (- 1)"
  by (simp_all add: in_T_def T_MIN_def T_MAX_def)

lemma mulT_zero: "mulT 0 b = Some 0" "mulT a 0 = Some 0"
  by (simp_all add: mulT_def in_T_simps)

lemma sdiv_exact: "g dvd n \<Longrightarrow> n sdiv g = n div (g::int)"
  by (simp add: signed_divide_int_eq_divide_int)

section \<open>\<open>PGCD\<close> computes the greatest common divisor\<close>

lemma PGCD_loop_gcd: "0 < b \<Longrightarrow> 0 \<le> r \<Longrightarrow> PGCD_loop a b r = Some (gcd b r)"
proof (induction a b r rule: PGCD_loop.induct)
  case (1 a b r)
  show ?case
  proof (cases "r = 0")
    case True
    with "1.prems" show ?thesis by (simp add: PGCD_loop.simps)
  next
    case False
    with "1.prems" have rpos: "0 < r" by simp
    have m: "modT b r = Some (b mod r)"
      using rpos "1.prems" by (simp add: modT_def smod_mod_positive)
    have "PGCD_loop b r (b mod r) = Some (gcd r (b mod r))"
      using "1.IH" [OF False m rpos] rpos by simp
    then show ?thesis
      using False m by (simp add: PGCD_loop.simps [of a b r] gcd_red_int [of b r])
  qed
qed

lemma PGCD_gcd: "0 \<le> a \<Longrightarrow> 0 < b \<Longrightarrow> PGCD a b = Some (gcd a b)"
proof -
  assume a: "0 \<le> a" and b: "0 < b"
  have m: "modT a b = Some (a mod b)"
    using a b by (simp add: modT_def smod_mod_positive)
  have "PGCD_loop a b (a mod b) = Some (gcd b (a mod b))"
    using b by (intro PGCD_loop_gcd) simp_all
  then show ?thesis
    using m by (simp add: PGCD_def gcd_red_int [of a b])
qed

section \<open>\<open>reduction\<close> reduces\<close>

lemma reduction_nonfinite: "m_den f = 0 \<Longrightarrow> reduction f = Some f"
  by (simp add: reduction_def)

lemma reduce_core:
  fixes n d :: int
  assumes d: "0 < d"
  defines "g \<equiv> gcd \<bar>n\<bar> d"
  shows "0 < g" "g \<noteq> - 1" "0 < d sdiv g" "gcd \<bar>n sdiv g\<bar> (d sdiv g) = 1"
    "(n sdiv g) * d = n * (d sdiv g)"
proof -
  show gpos: "0 < g" using d by (simp add: g_def)
  then show "g \<noteq> - 1" by simp
  have gn: "g dvd n" and gd: "g dvd d" by (simp_all add: g_def)
  have sn: "n sdiv g = n div g" and sd: "d sdiv g = d div g"
    using gn gd by (simp_all add: sdiv_exact)
  show "0 < d sdiv g"
    using d gpos gd sd by (metis dvd_div_eq_0_iff less_le not_less pos_imp_zdiv_nonneg_iff)
  have "coprime (n div g) (d div g)"
    using d div_gcd_coprime [of n d] by (simp add: g_def)
  then show "gcd \<bar>n sdiv g\<bar> (d sdiv g) = 1"
    by (simp add: sn sd)
  show "(n sdiv g) * d = n * (d sdiv g)"
    using gn gd by (simp add: sn sd div_mult_swap dvd_div_mult)
qed

lemma reduction_pos:
  assumes "0 < m_den f"
  shows "reduction f =
    (if 0 \<le> m_num f \<or> in_T (- m_num f)
     then Some \<lparr>m_num = m_num f sdiv gcd \<bar>m_num f\<bar> (m_den f),
                m_den = m_den f sdiv gcd \<bar>m_num f\<bar> (m_den f)\<rparr>
     else None)"
proof (cases "0 \<le> m_num f")
  case True
  then have "PGCD (m_num f) (m_den f) = Some (gcd \<bar>m_num f\<bar> (m_den f))"
    using assms PGCD_gcd [of "m_num f" "m_den f"] by simp
  then show ?thesis
    using assms True reduce_core(1,2) [OF assms, of "m_num f"]
    by (simp add: reduction_def divT_def)
next
  case False
  then have "PGCD (- m_num f) (m_den f) = Some (gcd \<bar>m_num f\<bar> (m_den f))"
    using assms PGCD_gcd [of "- m_num f" "m_den f"] by simp
  then show ?thesis
    using assms False reduce_core(1,2) [OF assms, of "m_num f"]
    by (simp add: reduction_def divT_def mulT_def)
qed

lemma reduction_neg:
  assumes "m_den f < 0" and "in_T (m_num f)"
  shows "reduction f =
    (if in_T (- m_num f) \<and> in_T (- m_den f)
     then reduction \<lparr>m_num = - m_num f, m_den = - m_den f\<rparr> else None)"
  using assms by (simp add: reduction_def mulT_def)

lemma reduction_neg_Some:
  assumes "m_den f < 0" and "reduction f = Some r"
  shows "reduction \<lparr>m_num = - m_num f, m_den = - m_den f\<rparr> = Some r"
  using assms by (auto simp: reduction_def mulT_def split: if_splits)

lemma reduction_finite:
  assumes "m_den f \<noteq> 0" and "reduction f = Some r"
  shows "0 < m_den r \<and> gcd \<bar>m_num r\<bar> (m_den r) = 1 \<and> m_num r * m_den f = m_num f * m_den r"
proof (cases "0 < m_den f")
  case True
  then have "r = \<lparr>m_num = m_num f sdiv gcd \<bar>m_num f\<bar> (m_den f),
                m_den = m_den f sdiv gcd \<bar>m_num f\<bar> (m_den f)\<rparr>"
    using assms(2) by (simp add: reduction_pos split: if_splits)
  then show ?thesis
    using reduce_core(3,4,5) [OF True, of "m_num f"] by simp
next
  case False
  with assms(1) have neg: "m_den f < 0" by simp
  define f' where "f' = \<lparr>m_num = - m_num f, m_den = - m_den f\<rparr>"
  have pos: "0 < m_den f'" using neg by (simp add: f'_def)
  have "reduction f' = Some r"
    using assms(2) neg by (simp add: reduction_neg_Some f'_def)
  then have "r = \<lparr>m_num = m_num f' sdiv gcd \<bar>m_num f'\<bar> (m_den f'),
                m_den = m_den f' sdiv gcd \<bar>m_num f'\<bar> (m_den f')\<rparr>"
    using pos by (simp add: reduction_pos split: if_splits)
  then show ?thesis
    using reduce_core(3,4,5) [OF pos, of "m_num f'"] by (simp add: f'_def)
qed

lemma reduction_defined:
  assumes "m_den f \<noteq> 0" "T_MIN < m_num f" "m_num f \<le> T_MAX" "T_MIN < m_den f" "m_den f \<le> T_MAX"
  shows "\<exists>r. reduction f = Some r"
proof (cases "0 < m_den f")
  case True
  then show ?thesis using assms by (simp add: reduction_pos in_T_def T_MIN_def T_MAX_def)
next
  case False
  with assms(1) have neg: "m_den f < 0" by simp
  then show ?thesis using assms
    by (simp add: reduction_neg reduction_pos in_T_def T_MIN_def T_MAX_def)
qed

lemma reduction_canonical: "reduction f = Some r \<Longrightarrow> canonical r"
proof (cases "m_den f = 0")
  case True
  assume "reduction f = Some r"
  with True have "r = f" by (simp add: reduction_nonfinite)
  with True show ?thesis by (auto simp: canonical_def isInf_def isNan_def)
next
  case False
  assume "reduction f = Some r"
  from reduction_finite [OF False this]
  have "0 < m_den r" and "gcd \<bar>m_num r\<bar> (m_den r) = 1" by simp_all
  then show ?thesis by (auto simp: canonical_def)
qed

lemmas T_defs = in_T_def T_MIN_def T_MAX_def

lemmas store_defs = locals_def set_num_def set_den_def reduction_at_def

lemmas arith_defs = addT_def subT_def mulT_def negT_def divT_def modT_def

section \<open>The two-argument constructor\<close>

lemma Fraction2_finite:
  assumes "den \<noteq> 0" and "Fraction2 num den = Some f"
  shows "0 < m_den f \<and> gcd \<bar>m_num f\<bar> (m_den f) = 1 \<and> m_num f * den = num * m_den f"
proof (cases "0 < den")
  case True
  with assms(2) have "reduction \<lparr>m_num = num, m_den = den\<rparr> = Some f"
    by (simp add: Fraction2_def)
  from reduction_finite [OF _ this] assms(1) show ?thesis by simp
next
  case False
  with assms(2) have "reduction \<lparr>m_num = - num, m_den = - den\<rparr> = Some f"
    by (auto simp: Fraction2_def negT_def mulT_def split: if_splits)
  from reduction_finite [OF _ this] assms(1) show ?thesis by simp
qed

lemma Fraction2_defined:
  assumes "den \<noteq> 0" "T_MIN < num" "num \<le> T_MAX" "T_MIN < den" "den \<le> T_MAX"
  shows "\<exists>f. Fraction2 num den = Some f"
proof (cases "0 < den")
  case True
  then show ?thesis
    using assms reduction_defined [of "\<lparr>m_num = num, m_den = den\<rparr>"]
    by (simp add: Fraction2_def)
next
  case False
  have "in_T (- den)" "in_T (num * - 1)"
    using assms by (simp_all add: T_defs)
  then show ?thesis
    using False assms reduction_defined [of "\<lparr>m_num = - num, m_den = - den\<rparr>"]
    by (simp add: Fraction2_def negT_def mulT_def T_defs)
qed

lemma Fraction2_zero_den: "in_T (- n) \<Longrightarrow> Fraction2 n 0 = Some \<lparr>m_num = - n, m_den = 0\<rparr>"
  by (simp add: Fraction2_def negT_def mulT_def in_T_simps reduction_nonfinite)

text \<open>
  The constructor is undefined on exactly the most negative value of \<open>T\<close>, as numerator
  or as denominator.
\<close>

lemma Fraction2_undefined_iff:
  assumes "in_T num" and "in_T den"
  shows "Fraction2 num den = None \<longleftrightarrow> num = T_MIN \<or> den = T_MIN"
proof (cases "num = T_MIN \<or> den = T_MIN")
  case False
  show ?thesis
  proof (cases "den = 0")
    case True
    with False assms show ?thesis
      by (simp add: Fraction2_zero_den T_defs)
  next
    case nz: False
    have "\<exists>f. Fraction2 num den = Some f"
      using False assms nz by (intro Fraction2_defined) (auto simp: T_defs)
    with False show ?thesis by auto
  qed
next
  case True
  then show ?thesis
  proof
    assume n: "num = T_MIN"
    show ?thesis
    proof (cases "0 < den")
      case True
      then show ?thesis
        using n by (simp add: Fraction2_def reduction_pos T_defs)
    next
      case False
      then show ?thesis
        using n by (simp add: Fraction2_def mulT_def negT_def T_defs)
    qed
  next
    assume "den = T_MIN"
    then show ?thesis
      by (simp add: Fraction2_def negT_def T_defs)
  qed
qed

section \<open>Where the operators are defined\<close>

text \<open>
  The binary operators return a result where the products and the sum of their
  formula are representable in \<open>T\<close> and are not the most negative value.
\<close>

lemma reduction_defined_all:
  assumes "T_MIN < m_num f" "m_num f \<le> T_MAX" "T_MIN < m_den f" "m_den f \<le> T_MAX"
  shows "\<exists>r. reduction f = Some r"
  using assms reduction_defined [of f] reduction_nonfinite [of f]
  by (cases "m_den f = 0") simp_all

lemma op_add_defined:
  assumes "in_T (m_num a * m_den b)" and "in_T (m_num b * m_den a)"
    and "T_MIN < m_num a * m_den b + m_num b * m_den a"
    and "m_num a * m_den b + m_num b * m_den a \<le> T_MAX"
    and "T_MIN < m_den a * m_den b" and "m_den a * m_den b \<le> T_MAX"
  shows "\<exists>r. op_add a b = Some r"
  using assms
    reduction_defined_all [of "a\<lparr>m_num := m_num a * m_den b + m_num b * m_den a,
      m_den := m_den a * m_den b\<rparr>"]
  by (auto simp: op_add_def op_add_assign_def store_defs arith_defs in_T_def Let_def)

lemma op_sub_defined:
  assumes "in_T (m_num a * m_den b)" and "in_T (m_num b * m_den a)"
    and "T_MIN < m_num a * m_den b - m_num b * m_den a"
    and "m_num a * m_den b - m_num b * m_den a \<le> T_MAX"
    and "T_MIN < m_den a * m_den b" and "m_den a * m_den b \<le> T_MAX"
  shows "\<exists>r. op_sub a b = Some r"
  using assms
    reduction_defined_all [of "a\<lparr>m_num := m_num a * m_den b - m_num b * m_den a,
      m_den := m_den a * m_den b\<rparr>"]
  by (auto simp: op_sub_def op_sub_assign_def store_defs arith_defs in_T_def Let_def)

lemma op_mul_defined:
  assumes "T_MIN < m_num a * m_num b" and "m_num a * m_num b \<le> T_MAX"
    and "T_MIN < m_den a * m_den b" and "m_den a * m_den b \<le> T_MAX"
  shows "\<exists>r. op_mul a b = Some r"
  using assms
    reduction_defined_all [of "a\<lparr>m_num := m_num a * m_num b, m_den := m_den a * m_den b\<rparr>"]
  by (auto simp: op_mul_def op_mul_assign_def store_defs arith_defs in_T_def Let_def)

lemma op_div_defined:
  assumes "T_MIN < m_num a * m_den b" and "m_num a * m_den b \<le> T_MAX"
    and "T_MIN < m_den a * m_num b" and "m_den a * m_num b \<le> T_MAX"
  shows "\<exists>r. op_div a b = Some r"
  using assms
    reduction_defined_all [of "a\<lparr>m_num := m_num a * m_den b, m_den := m_den a * m_num b\<rparr>"]
  by (auto simp: op_div_def op_div_assign_def store_defs arith_defs in_T_def Let_def)

section \<open>Every result is canonical\<close>

lemma Fraction2_canonical: "Fraction2 num den = Some f \<Longrightarrow> canonical f"
  by (auto simp: Fraction2_def bind_eq_Some_conv dest: reduction_canonical)

lemma reduction_at_canonical: "reduction_at this s = Some s' \<Longrightarrow> canonical (s' this)"
  by (auto simp: reduction_at_def bind_eq_Some_conv dest: reduction_canonical)

lemma op_add_assign_canonical: "op_add_assign this f s = Some s' \<Longrightarrow> canonical (s' this)"
  by (auto simp: op_add_assign_def bind_eq_Some_conv Let_def dest: reduction_at_canonical)

lemma op_sub_assign_canonical: "op_sub_assign this f s = Some s' \<Longrightarrow> canonical (s' this)"
  by (auto simp: op_sub_assign_def bind_eq_Some_conv Let_def dest: reduction_at_canonical)

lemma op_mul_assign_canonical: "op_mul_assign this f s = Some s' \<Longrightarrow> canonical (s' this)"
  by (auto simp: op_mul_assign_def bind_eq_Some_conv Let_def dest: reduction_at_canonical)

lemma op_div_assign_canonical: "op_div_assign this f s = Some s' \<Longrightarrow> canonical (s' this)"
  by (auto simp: op_div_assign_def bind_eq_Some_conv Let_def dest: reduction_at_canonical)


text \<open>
  C1. Every fraction that a public operation produces is in canonical form: the
  one-argument constructor, the two-argument constructor, the binary operators
  \<open>+\<close>, \<open>-\<close>, \<open>*\<close>, \<open>/\<close> and the compound assignments \<open>+=\<close>, \<open>-=\<close>, \<open>*=\<close>, \<open>/=\<close>
  (whose result is the receiver's new value, also when the argument is the receiver
  itself), on any operands. A result is produced where the operation's arithmetic
  is defined, that is, does not overflow \<open>T\<close>. A fraction whose denominator is \<open>0\<close> is
  left by \<open>reduction\<close> as it is.
\<close>

theorem results_canonical:
  "canonical (Fraction1 n) \<and>
   (\<forall>r. Fraction2 n d = Some r \<longrightarrow> canonical r) \<and>
   (\<forall>r. op_add a b = Some r \<longrightarrow> canonical r) \<and>
   (\<forall>r. op_sub a b = Some r \<longrightarrow> canonical r) \<and>
   (\<forall>r. op_mul a b = Some r \<longrightarrow> canonical r) \<and>
   (\<forall>r. op_div a b = Some r \<longrightarrow> canonical r) \<and>
   (\<forall>s'. op_add_assign this f s = Some s' \<longrightarrow> canonical (s' this)) \<and>
   (\<forall>s'. op_sub_assign this f s = Some s' \<longrightarrow> canonical (s' this)) \<and>
   (\<forall>s'. op_mul_assign this f s = Some s' \<longrightarrow> canonical (s' this)) \<and>
   (\<forall>s'. op_div_assign this f s = Some s' \<longrightarrow> canonical (s' this)) \<and>
   (\<forall>x. m_den x = 0 \<longrightarrow> reduction x = Some x)"
proof -
  have "canonical (Fraction1 n)"
    by (simp add: canonical_def Fraction1_def)
  moreover have "\<forall>r. Fraction2 n d = Some r \<longrightarrow> canonical r"
    by (simp add: Fraction2_canonical)
  moreover have "\<forall>r. op_add a b = Some r \<longrightarrow> canonical r"
    by (auto simp: op_add_def bind_eq_Some_conv dest: op_add_assign_canonical)
  moreover have "\<forall>r. op_sub a b = Some r \<longrightarrow> canonical r"
    by (auto simp: op_sub_def bind_eq_Some_conv dest: op_sub_assign_canonical)
  moreover have "\<forall>r. op_mul a b = Some r \<longrightarrow> canonical r"
    by (auto simp: op_mul_def bind_eq_Some_conv dest: op_mul_assign_canonical)
  moreover have "\<forall>r. op_div a b = Some r \<longrightarrow> canonical r"
    by (auto simp: op_div_def bind_eq_Some_conv dest: op_div_assign_canonical)
  moreover have "\<forall>s'. op_add_assign this f s = Some s' \<longrightarrow> canonical (s' this)"
    by (simp add: op_add_assign_canonical)
  moreover have "\<forall>s'. op_sub_assign this f s = Some s' \<longrightarrow> canonical (s' this)"
    by (simp add: op_sub_assign_canonical)
  moreover have "\<forall>s'. op_mul_assign this f s = Some s' \<longrightarrow> canonical (s' this)"
    by (simp add: op_mul_assign_canonical)
  moreover have "\<forall>s'. op_div_assign this f s = Some s' \<longrightarrow> canonical (s' this)"
    by (simp add: op_div_assign_canonical)
  moreover have "\<forall>x. m_den x = 0 \<longrightarrow> reduction x = Some x"
    by (simp add: reduction_nonfinite)
  ultimately show ?thesis by blast
qed

theorem results_canonical_witness:
  "canonical (Fraction1 100) \<and>
   Fraction2 100 (- 150) = Some \<lparr>m_num = - 2, m_den = 3\<rparr> \<and>
   canonical \<lparr>m_num = - 2, m_den = 3\<rparr> \<and>
   op_add \<lparr>m_num = 2, m_den = 3\<rparr> \<lparr>m_num = 2, m_den = 5\<rparr> = Some \<lparr>m_num = 16, m_den = 15\<rparr> \<and>
   canonical \<lparr>m_num = 16, m_den = 15\<rparr> \<and>
   op_sub \<lparr>m_num = 2, m_den = 3\<rparr> \<lparr>m_num = 2, m_den = 3\<rparr> = Some \<lparr>m_num = 0, m_den = 1\<rparr> \<and>
   canonical \<lparr>m_num = 0, m_den = 1\<rparr> \<and>
   op_mul \<lparr>m_num = 2, m_den = 3\<rparr> \<lparr>m_num = - 3, m_den = 4\<rparr> = Some \<lparr>m_num = - 1, m_den = 2\<rparr> \<and>
   canonical \<lparr>m_num = - 1, m_den = 2\<rparr> \<and>
   op_div \<lparr>m_num = 2, m_den = 3\<rparr> \<lparr>m_num = - 4, m_den = 5\<rparr> = Some \<lparr>m_num = - 5, m_den = 6\<rparr> \<and>
   canonical \<lparr>m_num = - 5, m_den = 6\<rparr> \<and>
   (\<exists>s'. op_add_assign 0 0 (\<lambda>p. \<lparr>m_num = 2, m_den = 3\<rparr>) = Some s' \<and>
      s' 0 = \<lparr>m_num = 4, m_den = 3\<rparr> \<and> canonical (s' 0)) \<and>
   (\<exists>s'. op_sub_assign 0 1 (\<lambda>p. \<lparr>m_num = 2, m_den = 3\<rparr>) = Some s' \<and>
      s' 0 = \<lparr>m_num = 0, m_den = 1\<rparr> \<and> canonical (s' 0)) \<and>
   (\<exists>s'. op_mul_assign 0 0 (\<lambda>p. \<lparr>m_num = 2, m_den = 3\<rparr>) = Some s' \<and>
      s' 0 = \<lparr>m_num = 4, m_den = 9\<rparr> \<and> canonical (s' 0)) \<and>
   (\<exists>s'. op_div_assign 0 0 (\<lambda>p. \<lparr>m_num = 2, m_den = 3\<rparr>) = Some s' \<and>
      s' 0 = \<lparr>m_num = 1, m_den = 3\<rparr> \<and> canonical (s' 0)) \<and>
   m_den \<lparr>m_num = 4, m_den = 0\<rparr> = 0 \<and>
   reduction \<lparr>m_num = 4, m_den = 0\<rparr> = Some \<lparr>m_num = 4, m_den = 0\<rparr>"
proof -
  let ?s = "\<lambda>p::addr. \<lparr>m_num = 2, m_den = 3\<rparr>"
  have c: "Fraction2 100 (- 150) = Some \<lparr>m_num = - 2, m_den = 3\<rparr>"
    by code_simp
  have o: "op_add \<lparr>m_num = 2, m_den = 3\<rparr> \<lparr>m_num = 2, m_den = 5\<rparr> = Some \<lparr>m_num = 16, m_den = 15\<rparr>"
    "op_sub \<lparr>m_num = 2, m_den = 3\<rparr> \<lparr>m_num = 2, m_den = 3\<rparr> = Some \<lparr>m_num = 0, m_den = 1\<rparr>"
    "op_mul \<lparr>m_num = 2, m_den = 3\<rparr> \<lparr>m_num = - 3, m_den = 4\<rparr> = Some \<lparr>m_num = - 1, m_den = 2\<rparr>"
    "op_div \<lparr>m_num = 2, m_den = 3\<rparr> \<lparr>m_num = - 4, m_den = 5\<rparr> = Some \<lparr>m_num = - 5, m_den = 6\<rparr>"
    by code_simp+
  have "op_add_assign 0 0 ?s \<bind> (\<lambda>s. Some (s 0)) = Some \<lparr>m_num = 4, m_den = 3\<rparr>"
    by code_simp
  then obtain s1 where s1: "op_add_assign 0 0 ?s = Some s1" "s1 0 = \<lparr>m_num = 4, m_den = 3\<rparr>"
    by (auto simp: bind_eq_Some_conv)
  have "op_sub_assign 0 1 ?s \<bind> (\<lambda>s. Some (s 0)) = Some \<lparr>m_num = 0, m_den = 1\<rparr>"
    by code_simp
  then obtain s2 where s2: "op_sub_assign 0 1 ?s = Some s2" "s2 0 = \<lparr>m_num = 0, m_den = 1\<rparr>"
    by (auto simp: bind_eq_Some_conv)
  have "op_mul_assign 0 0 ?s \<bind> (\<lambda>s. Some (s 0)) = Some \<lparr>m_num = 4, m_den = 9\<rparr>"
    by code_simp
  then obtain s3 where s3: "op_mul_assign 0 0 ?s = Some s3" "s3 0 = \<lparr>m_num = 4, m_den = 9\<rparr>"
    by (auto simp: bind_eq_Some_conv)
  have "op_div_assign 0 0 ?s \<bind> (\<lambda>s. Some (s 0)) = Some \<lparr>m_num = 1, m_den = 3\<rparr>"
    by code_simp
  then obtain s4 where s4: "op_div_assign 0 0 ?s = Some s4" "s4 0 = \<lparr>m_num = 1, m_den = 3\<rparr>"
    by (auto simp: bind_eq_Some_conv)
  note r1 = results_canonical [of 100 "- 150" "\<lparr>m_num = 2, m_den = 3\<rparr>"
      "\<lparr>m_num = 2, m_den = 5\<rparr>" 0 0 ?s]
  note r2 = results_canonical [of 0 0 "\<lparr>m_num = 2, m_den = 3\<rparr>"
      "\<lparr>m_num = 2, m_den = 3\<rparr>" 0 1 ?s]
  note r3 = results_canonical [of 0 0 "\<lparr>m_num = 2, m_den = 3\<rparr>"
      "\<lparr>m_num = - 3, m_den = 4\<rparr>" 0 0 ?s]
  note r4 = results_canonical [of 0 0 "\<lparr>m_num = 2, m_den = 3\<rparr>"
      "\<lparr>m_num = - 4, m_den = 5\<rparr>" 0 0 ?s]
  have k1: "canonical (Fraction1 100)" "canonical \<lparr>m_num = - 2, m_den = 3\<rparr>"
    "canonical \<lparr>m_num = 16, m_den = 15\<rparr>" "canonical (s1 0)" "canonical (s3 0)" "canonical (s4 0)"
    "reduction \<lparr>m_num = 4, m_den = 0\<rparr> = Some \<lparr>m_num = 4, m_den = 0\<rparr>"
    using r1 c o(1) s1(1) s3(1) s4(1) by simp_all
  have k2: "canonical \<lparr>m_num = 0, m_den = 1\<rparr>" "canonical (s2 0)"
    using r2 o(2) s2(1) by simp_all
  have k3: "canonical \<lparr>m_num = - 1, m_den = 2\<rparr>"
    using r3 o(3) by simp
  have k4: "canonical \<lparr>m_num = - 5, m_den = 6\<rparr>"
    using r4 o(4) by simp
  show ?thesis
    using c o s1 s2 s3 s4 k1 k2 k3 k4 by simp
qed

text \<open>
  C2, as stated, fails: the most negative value of \<open>T\<close> is a numerator and a denominator
  the constructor accepts, and its negation overflows. \<open>Fraction(INT32_MIN, 5)\<close> overflows
  at \<open>-1*m_num\<close> in \<open>reduction\<close>, and \<open>Fraction(1, INT32_MIN)\<close> at \<open>m_den = -den\<close>
  in the constructor: the behaviour is undefined and no canonical pair is produced.
\<close>

theorem Fraction2_reduces_counterexample:
  "in_T (- 2147483648) \<and> in_T 5 \<and> in_T 1 \<and>
   (5::int) \<noteq> 0 \<and> (- 2147483648::int) \<noteq> 0 \<and>
   Fraction2 (- 2147483648) 5 = None \<and>
   Fraction2 1 (- 2147483648) = None"
  by code_simp

text \<open>
  C2, amended. For every pair \<open>(num, den)\<close> of values of \<open>T\<close> with \<open>den != 0\<close> and neither
  \<open>num\<close> nor \<open>den\<close> the most negative value of \<open>T\<close> (by \<open>Fraction2_undefined_iff\<close> these
  are all the pairs on which the constructor is defined), the two-argument constructor
  returns a pair \<open>(num', den')\<close> with \<open>gcd(|num'|, den') == 1\<close>, \<open>den' > 0\<close>, and
  \<open>num'/den'\<close> equal to \<open>num/den\<close> as exact rational numbers.
\<close>

theorem Fraction2_reduces:
  assumes "den \<noteq> 0"
    and "T_MIN < num" and "num \<le> T_MAX" and "T_MIN < den" and "den \<le> T_MAX"
  shows "\<exists>f. Fraction2 num den = Some f \<and>
           gcd \<bar>m_num f\<bar> (m_den f) = 1 \<and> 0 < m_den f \<and>
           (of_int (m_num f) / of_int (m_den f) :: rat) = of_int num / of_int den"
proof -
  from Fraction2_defined [OF assms] obtain f where f: "Fraction2 num den = Some f" ..
  from Fraction2_finite [OF assms(1) f]
  have d: "0 < m_den f" and g: "gcd \<bar>m_num f\<bar> (m_den f) = 1"
    and v: "m_num f * den = num * m_den f" by simp_all
  have "(of_int (m_num f) * of_int den :: rat) = of_int num * of_int (m_den f)"
    using v by (metis of_int_mult)
  then have "(of_int (m_num f) / of_int (m_den f) :: rat) = of_int num / of_int den"
    using d assms(1) by (simp add: frac_eq_eq)
  with f d g show ?thesis by (intro exI [of _ f]) simp
qed

theorem Fraction2_reduces_witness:
  "(150::int) \<noteq> 0 \<and> T_MIN < 100 \<and> 100 \<le> T_MAX \<and> T_MIN < 150 \<and> 150 \<le> T_MAX \<and>
   Fraction2 100 150 = Some \<lparr>m_num = 2, m_den = 3\<rparr> \<and>
   Fraction2 5 (- 10) = Some \<lparr>m_num = - 1, m_den = 2\<rparr> \<and>
   (\<exists>f. Fraction2 100 150 = Some f \<and>
           gcd \<bar>m_num f\<bar> (m_den f) = 1 \<and> 0 < m_den f \<and>
           (of_int (m_num f) / of_int (m_den f) :: rat) = of_int 100 / of_int 150)"
proof -
  have h: "(150::int) \<noteq> 0" "T_MIN < 100" "100 \<le> T_MAX" "T_MIN < 150" "150 \<le> T_MAX"
    by (simp_all add: T_defs)
  have e: "Fraction2 100 150 = Some \<lparr>m_num = 2, m_den = 3\<rparr>"
    "Fraction2 5 (- 10) = Some \<lparr>m_num = - 1, m_den = 2\<rparr>"
    by code_simp+
  show ?thesis
    using h e Fraction2_reduces [OF h] by simp
qed

section \<open>Division by a zero fraction\<close>

lemma op_div_zero_num:
  assumes "m_num b = 0" and "in_T (m_num a * m_den b)"
  shows "op_div a b = Some \<lparr>m_num = m_num a * m_den b, m_den = 0\<rparr>"
  using assms
  by (cases a) (simp add: op_div_def op_div_assign_def store_defs mulT_def Let_def in_T_simps
      reduction_nonfinite)

text \<open>
  C3, as stated, fails: a fraction \<open>b\<close> with numerator \<open>0\<close> is either zero, \<open>(0, 1)\<close>, or
  not-a-number, \<open>(0, 0)\<close>, and \<open>a / (0, 0)\<close> has numerator \<open>a.num * 0 = 0\<close>: it is
  not-a-number also when \<open>a\<close>'s numerator is not zero. So \<open>Fraction(1,3) / Fraction(0,0)\<close>
  is not infinite.
\<close>

theorem div_by_NaN_counterexample:
  "Fraction2 1 3 = Some \<lparr>m_num = 1, m_den = 3\<rparr> \<and>
   Fraction2 0 0 = Some \<lparr>m_num = 0, m_den = 0\<rparr> \<and>
   m_num \<lparr>m_num = 0, m_den = 0\<rparr> = 0 \<and>
   m_num \<lparr>m_num = 1, m_den = 3\<rparr> \<noteq> 0 \<and>
   op_div \<lparr>m_num = 1, m_den = 3\<rparr> \<lparr>m_num = 0, m_den = 0\<rparr> = Some \<lparr>m_num = 0, m_den = 0\<rparr> \<and>
   \<not> isInf \<lparr>m_num = 0, m_den = 0\<rparr>"
  by code_simp

text \<open>
  C3, amended. For all fractions \<open>a\<close> and \<open>b\<close> where \<open>b\<close>'s numerator is \<open>0\<close>, \<open>a / b\<close>
  returns a result with denominator \<open>0\<close>; it is infinite when \<open>a\<close>'s numerator is not
  zero and \<open>b\<close> is finite (the zero fraction), and not-a-number when \<open>a\<close>'s numerator is
  zero or \<open>b\<close> is not-a-number. In particular \<open>Fraction(1,3) / Fraction(0,5)\<close> is
  infinite.
\<close>

theorem div_by_zero_fraction:
  assumes "m_num b = 0" and "canonical b" and "in_T (m_num a)"
  shows "\<exists>r. op_div a b = Some r \<and> m_den r = 0 \<and>
           (m_num a \<noteq> 0 \<and> isFinite b \<longrightarrow> isInf r) \<and>
           (m_num a = 0 \<or> isNan b \<longrightarrow> isNan r)"
proof -
  have d: "m_den b = 0 \<or> m_den b = 1"
    using assms(1,2) by (auto simp: canonical_def)
  then have "in_T (m_num a * m_den b)"
    using assms(3) by (auto simp: in_T_simps)
  from op_div_zero_num [OF assms(1) this] d assms(1) show ?thesis
    by (auto simp: isInf_def isNan_def isFinite_def)
qed

theorem div_by_zero_fraction_witness:
  "Fraction2 1 3 = Some \<lparr>m_num = 1, m_den = 3\<rparr> \<and>
   Fraction2 0 5 = Some \<lparr>m_num = 0, m_den = 1\<rparr> \<and>
   m_num \<lparr>m_num = 0, m_den = 1\<rparr> = 0 \<and> canonical \<lparr>m_num = 0, m_den = 1\<rparr> \<and>
   in_T (m_num \<lparr>m_num = 1, m_den = 3\<rparr>) \<and>
   op_div \<lparr>m_num = 1, m_den = 3\<rparr> \<lparr>m_num = 0, m_den = 1\<rparr> = Some \<lparr>m_num = 1, m_den = 0\<rparr> \<and>
   isInf \<lparr>m_num = 1, m_den = 0\<rparr> \<and>
   (\<exists>r. op_div \<lparr>m_num = 0, m_den = 1\<rparr> \<lparr>m_num = 0, m_den = 1\<rparr> = Some r \<and> isNan r)"
proof -
  let ?a = "\<lparr>m_num = 1, m_den = 3\<rparr>" and ?z = "\<lparr>m_num = 0, m_den = 1\<rparr>"
  have c: "Fraction2 1 3 = Some ?a" "Fraction2 0 5 = Some ?z"
    by code_simp+
  have h: "m_num ?z = 0" "canonical ?z" "in_T (m_num ?a)"
    by code_simp+
  have h': "in_T (m_num ?z)"
    by code_simp
  have e: "op_div ?a ?z = Some \<lparr>m_num = 1, m_den = 0\<rparr>"
    by code_simp
  show ?thesis
    using c h e div_by_zero_fraction [OF h] div_by_zero_fraction [OF h(1,2) h']
    by (auto simp: isFinite_def)
qed

section \<open>The worked examples\<close>

text \<open>
  C4, as stated, fails: \<open>100/150 + 2/5\<close> is \<open>16/15\<close>, not \<open>14/15\<close>, and
  \<open>30/15 - 242/(-10)\<close> is \<open>131/5\<close>, printed \<open>131/5\<close>, not \<open>27/1\<close>.
\<close>

theorem arithmetic_identities_counterexample:
  "Fraction2 100 150 = Some \<lparr>m_num = 2, m_den = 3\<rparr> \<and>
   Fraction2 2 5 = Some \<lparr>m_num = 2, m_den = 5\<rparr> \<and>
   Fraction2 14 15 = Some \<lparr>m_num = 14, m_den = 15\<rparr> \<and>
   op_add \<lparr>m_num = 2, m_den = 3\<rparr> \<lparr>m_num = 2, m_den = 5\<rparr> = Some \<lparr>m_num = 16, m_den = 15\<rparr> \<and>
   \<not> op_eq \<lparr>m_num = 16, m_den = 15\<rparr> \<lparr>m_num = 14, m_den = 15\<rparr> \<and>
   Fraction2 30 15 = Some \<lparr>m_num = 2, m_den = 1\<rparr> \<and>
   Fraction2 242 (- 10) = Some \<lparr>m_num = - 121, m_den = 5\<rparr> \<and>
   Fraction2 27 1 = Some \<lparr>m_num = 27, m_den = 1\<rparr> \<and>
   op_sub \<lparr>m_num = 2, m_den = 1\<rparr> \<lparr>m_num = - 121, m_den = 5\<rparr> = Some \<lparr>m_num = 131, m_den = 5\<rparr> \<and>
   \<not> op_eq \<lparr>m_num = 131, m_den = 5\<rparr> \<lparr>m_num = 27, m_den = 1\<rparr> \<and>
   op_shl [] \<lparr>m_num = 131, m_den = 5\<rparr> \<noteq> ''27/1''"
  by code_simp

text \<open>
  C4, amended. \<open>Fraction(100,150) + Fraction(2,5) == Fraction(16,15)\<close>;
  \<open>Fraction(30,15) - Fraction(242,-10) == Fraction(131,5)\<close>, whose text form is
  \<open>131/5\<close>; and \<open>Fraction(3,33) * Fraction(7,-21) == Fraction(-1,33)\<close>.
\<close>

theorem arithmetic_identities:
  "Fraction2 100 150 = Some \<lparr>m_num = 2, m_den = 3\<rparr> \<and>
   Fraction2 2 5 = Some \<lparr>m_num = 2, m_den = 5\<rparr> \<and>
   Fraction2 16 15 = Some \<lparr>m_num = 16, m_den = 15\<rparr> \<and>
   op_add \<lparr>m_num = 2, m_den = 3\<rparr> \<lparr>m_num = 2, m_den = 5\<rparr> = Some \<lparr>m_num = 16, m_den = 15\<rparr> \<and>
   op_eq \<lparr>m_num = 16, m_den = 15\<rparr> \<lparr>m_num = 16, m_den = 15\<rparr> \<and>
   Fraction2 30 15 = Some \<lparr>m_num = 2, m_den = 1\<rparr> \<and>
   Fraction2 242 (- 10) = Some \<lparr>m_num = - 121, m_den = 5\<rparr> \<and>
   Fraction2 131 5 = Some \<lparr>m_num = 131, m_den = 5\<rparr> \<and>
   op_sub \<lparr>m_num = 2, m_den = 1\<rparr> \<lparr>m_num = - 121, m_den = 5\<rparr> = Some \<lparr>m_num = 131, m_den = 5\<rparr> \<and>
   op_eq \<lparr>m_num = 131, m_den = 5\<rparr> \<lparr>m_num = 131, m_den = 5\<rparr> \<and>
   op_shl [] \<lparr>m_num = 131, m_den = 5\<rparr> = ''131/5'' \<and>
   Fraction2 3 33 = Some \<lparr>m_num = 1, m_den = 11\<rparr> \<and>
   Fraction2 7 (- 21) = Some \<lparr>m_num = - 1, m_den = 3\<rparr> \<and>
   Fraction2 (- 1) 33 = Some \<lparr>m_num = - 1, m_den = 33\<rparr> \<and>
   op_mul \<lparr>m_num = 1, m_den = 11\<rparr> \<lparr>m_num = - 1, m_den = 3\<rparr> = Some \<lparr>m_num = - 1, m_den = 33\<rparr> \<and>
   op_eq \<lparr>m_num = - 1, m_den = 33\<rparr> \<lparr>m_num = - 1, m_den = 33\<rparr>"
  by code_simp

section \<open>The constructor on a zero denominator\<close>

text \<open>
  The constructor tests \<open>den > 0\<close>, so a zero denominator takes the branch that negates:
  the denominator stays \<open>0\<close> and the numerator changes sign. \<open>reduction\<close>, which fixes
  the sign after every arithmetic operation, tests \<open>m_den < 0\<close> and leaves a zero
  denominator alone, so the quotient \<open>1/1 / 0/1\<close> is \<open>(1, 0)\<close> while \<open>Fraction(1, 0)\<close>
  is \<open>(-1, 0)\<close>.
\<close>

lemma Fraction2_idempotent_NaN: "Fraction2 0 0 = Some \<lparr>m_num = 0, m_den = 0\<rparr>"
  using Fraction2_zero_den [of 0] by (simp add: in_T_simps)

lemma Fraction2_idempotent_finite:
  assumes "canonical f" and "0 < m_den f" and "in_T (- m_num f)"
  shows "Fraction2 (m_num f) (m_den f) = Some f"
proof -
  have g: "gcd \<bar>m_num f\<bar> (m_den f) = 1"
    using assms(1,2) by (simp add: canonical_def)
  have "reduction \<lparr>m_num = m_num f, m_den = m_den f\<rparr> = Some f"
    using assms(2,3) g by (simp add: reduction_pos)
  then show ?thesis
    using assms(2) by (simp add: Fraction2_def)
qed

text \<open>
  C5. The specification has \<open>Fraction(n, 0)\<close> store the numerator \<open>n\<close> as supplied. The
  code stores \<open>- n\<close>: \<open>Fraction(1, 0)\<close> is \<open>(-1, 0)\<close> and \<open>Fraction(-7, 0)\<close> is \<open>(7, 0)\<close>.
\<close>

theorem Fraction2_zero_den_negates:
  "Fraction2 1 0 = Some \<lparr>m_num = - 1, m_den = 0\<rparr> \<and>
   Fraction2 (- 7) 0 = Some \<lparr>m_num = 7, m_den = 0\<rparr> \<and>
   op_div \<lparr>m_num = 1, m_den = 1\<rparr> \<lparr>m_num = 0, m_den = 1\<rparr> = Some \<lparr>m_num = 1, m_den = 0\<rparr>"
  by code_simp

text \<open>
  C6. The specification has the constructor return every canonical pair unchanged.
  The code does so for a positive denominator (\<open>Fraction2_idempotent_finite\<close>) and for
  \<open>(0, 0)\<close> (\<open>Fraction2_idempotent_NaN\<close>), but not for an infinite pair: \<open>(1, 0)\<close> comes
  back as \<open>(-1, 0)\<close>.
\<close>

theorem Fraction2_Inf_not_idempotent:
  "isInf \<lparr>m_num = 1, m_den = 0\<rparr> \<and>
   Fraction2 (m_num \<lparr>m_num = 1, m_den = 0\<rparr>) (m_den \<lparr>m_num = 1, m_den = 0\<rparr>)
     = Some \<lparr>m_num = - 1, m_den = 0\<rparr> \<and>
   \<not> op_eq \<lparr>m_num = - 1, m_den = 0\<rparr> \<lparr>m_num = 1, m_den = 0\<rparr>"
  by code_simp

section \<open>Comparisons\<close>

lemma canonical_unique:
  assumes "canonical f1" "m_den f1 \<noteq> 0" "canonical f2" "m_den f2 \<noteq> 0"
    and eq: "m_num f1 * m_den f2 = m_num f2 * m_den f1"
  shows "m_num f1 = m_num f2 \<and> m_den f1 = m_den f2"
proof -
  have d1: "0 < m_den f1" and d2: "0 < m_den f2"
    using assms(1-4) by (auto simp: canonical_def)
  have c1: "coprime (m_den f1) (m_num f1)" and c2: "coprime (m_den f2) (m_num f2)"
    using assms(1,3) d1 d2 by (auto simp: canonical_def coprime_iff_gcd_eq_1 gcd.commute)
  have "m_den f1 dvd m_num f1 * m_den f2"
    by (simp add: eq)
  then have a: "m_den f1 dvd m_den f2"
    using c1 by (simp add: coprime_dvd_mult_right_iff)
  have "m_den f2 dvd m_num f2 * m_den f1"
    by (simp add: eq [symmetric])
  then have b: "m_den f2 dvd m_den f1"
    using c2 by (simp add: coprime_dvd_mult_right_iff)
  have d: "m_den f1 = m_den f2"
    using a b d1 d2 by (simp add: zdvd_antisym_nonneg)
  with eq d1 show ?thesis by simp
qed

text \<open>
  C7. For finite canonical fractions \<open>f1\<close> and \<open>f2\<close> whose cross products are
  representable in \<open>T\<close>, exactly one of \<open>f1 < f2\<close>, \<open>f1 == f2\<close>, \<open>f1 > f2\<close> holds, and
  \<open>f1 <= f2\<close> is the negation of \<open>f1 > f2\<close>.
\<close>

theorem ordering_trichotomy:
  assumes "canonical f1" and "isFinite f1" and "canonical f2" and "isFinite f2"
    and "in_T (m_num f1 * m_den f2)" and "in_T (m_num f2 * m_den f1)"
  shows "\<exists>l g. op_lt f1 f2 = Some l \<and> op_gt f1 f2 = Some g \<and>
           ((l \<and> \<not> op_eq f1 f2 \<and> \<not> g) \<or> (\<not> l \<and> op_eq f1 f2 \<and> \<not> g) \<or>
            (\<not> l \<and> \<not> op_eq f1 f2 \<and> g)) \<and>
           op_le f1 f2 = Some (\<not> g)"
proof -
  let ?x = "m_num f1 * m_den f2" and ?y = "m_num f2 * m_den f1"
  have g: "op_gt f1 f2 = Some (?x > ?y)" and l: "op_lt f1 f2 = Some (?y > ?x)"
    and le: "op_le f1 f2 = Some (\<not> ?x > ?y)"
    using assms(5,6) by (simp_all add: op_gt_def op_lt_def op_le_def mulT_def)
  have e: "op_eq f1 f2 \<longleftrightarrow> ?x = ?y"
    using canonical_unique [of f1 f2] assms(1-4)
    by (auto simp: op_eq_def isFinite_def)
  show ?thesis
    unfolding g l le e by (intro exI conjI refl) auto
qed

theorem ordering_trichotomy_witness:
  "canonical \<lparr>m_num = 2, m_den = 3\<rparr> \<and> isFinite \<lparr>m_num = 2, m_den = 3\<rparr> \<and>
   canonical \<lparr>m_num = 2, m_den = 5\<rparr> \<and> isFinite \<lparr>m_num = 2, m_den = 5\<rparr> \<and>
   in_T (m_num \<lparr>m_num = 2, m_den = 3\<rparr> * m_den \<lparr>m_num = 2, m_den = 5\<rparr>) \<and>
   in_T (m_num \<lparr>m_num = 2, m_den = 5\<rparr> * m_den \<lparr>m_num = 2, m_den = 3\<rparr>) \<and>
   op_lt \<lparr>m_num = 2, m_den = 3\<rparr> \<lparr>m_num = 2, m_den = 5\<rparr> = Some False \<and>
   \<not> op_eq \<lparr>m_num = 2, m_den = 3\<rparr> \<lparr>m_num = 2, m_den = 5\<rparr> \<and>
   op_gt \<lparr>m_num = 2, m_den = 3\<rparr> \<lparr>m_num = 2, m_den = 5\<rparr> = Some True \<and>
   op_le \<lparr>m_num = 2, m_den = 3\<rparr> \<lparr>m_num = 2, m_den = 5\<rparr> = Some False \<and>
   op_lt \<lparr>m_num = 2, m_den = 5\<rparr> \<lparr>m_num = 2, m_den = 3\<rparr> = Some True \<and>
   op_gt \<lparr>m_num = 2, m_den = 5\<rparr> \<lparr>m_num = 2, m_den = 3\<rparr> = Some False \<and>
   op_le \<lparr>m_num = 2, m_den = 5\<rparr> \<lparr>m_num = 2, m_den = 3\<rparr> = Some True \<and>
   op_lt \<lparr>m_num = 2, m_den = 3\<rparr> \<lparr>m_num = 2, m_den = 3\<rparr> = Some False \<and>
   op_eq \<lparr>m_num = 2, m_den = 3\<rparr> \<lparr>m_num = 2, m_den = 3\<rparr> \<and>
   op_gt \<lparr>m_num = 2, m_den = 3\<rparr> \<lparr>m_num = 2, m_den = 3\<rparr> = Some False \<and>
   op_le \<lparr>m_num = 2, m_den = 3\<rparr> \<lparr>m_num = 2, m_den = 3\<rparr> = Some True"
proof -
  let ?a = "\<lparr>m_num = 2, m_den = 3\<rparr>" and ?b = "\<lparr>m_num = 2, m_den = 5\<rparr>"
  have h: "canonical ?a" "isFinite ?a" "canonical ?b" "isFinite ?b"
    "in_T (m_num ?a * m_den ?b)" "in_T (m_num ?b * m_den ?a)"
    by code_simp+
  have e: "op_gt ?a ?b = Some True" "op_lt ?a ?b = Some False" "op_le ?a ?b = Some False"
    "op_gt ?b ?a = Some False" "op_lt ?b ?a = Some True" "op_le ?b ?a = Some True"
    "op_gt ?a ?a = Some False" "op_lt ?a ?a = Some False" "op_le ?a ?a = Some True"
    "\<not> op_eq ?a ?b" "op_eq ?a ?a"
    by code_simp+
  show ?thesis
    using h e ordering_trichotomy [OF h] by simp
qed

text \<open>
  C8. For two fractions with denominator \<open>0\<close> (any of infinite and not-a-number),
  \<open>f1 > f2\<close> is false: both cross products are \<open>0\<close>.
\<close>

theorem gt_nonfinite_false:
  assumes "m_den f1 = 0" and "m_den f2 = 0"
  shows "op_gt f1 f2 = Some False"
  using assms by (simp add: op_gt_def mulT_zero)

theorem gt_nonfinite_false_witness:
  "m_den \<lparr>m_num = 1, m_den = 0\<rparr> = 0 \<and> m_den \<lparr>m_num = 0, m_den = 0\<rparr> = 0 \<and>
   isInf \<lparr>m_num = 1, m_den = 0\<rparr> \<and> isNan \<lparr>m_num = 0, m_den = 0\<rparr> \<and>
   op_gt \<lparr>m_num = 1, m_den = 0\<rparr> \<lparr>m_num = 0, m_den = 0\<rparr> = Some False \<and>
   op_gt \<lparr>m_num = 0, m_den = 0\<rparr> \<lparr>m_num = 1, m_den = 0\<rparr> = Some False"
  using gt_nonfinite_false [of "\<lparr>m_num = 1, m_den = 0\<rparr>" "\<lparr>m_num = 0, m_den = 0\<rparr>"]
    gt_nonfinite_false [of "\<lparr>m_num = 0, m_den = 0\<rparr>" "\<lparr>m_num = 1, m_den = 0\<rparr>"]
  by (simp add: isInf_def isNan_def)

section \<open>Termination of \<open>PGCD\<close>\<close>

lemma reduction_calls_PGCD:
  "reduction f =
     (if m_den f \<noteq> 0 then do {
        (f1, a, b) \<leftarrow> PGCD_call f;
        dv \<leftarrow> PGCD a b;
        n \<leftarrow> divT (m_num f1) dv;
        d \<leftarrow> divT (m_den f1) dv;
        Some \<lparr>m_num = n, m_den = d\<rparr>
      } else Some f)"
  by (simp add: reduction_def PGCD_call_def split: Option.bind_split)

lemma PGCD_call_args:
  assumes "PGCD_call f = Some (f1, a, b)"
  shows "0 \<le> a \<and> 0 < b"
  using assms
  by (auto simp: PGCD_call_def mulT_def bind_eq_Some_conv split: if_splits)

text \<open>
  C9. Every call of \<open>PGCD\<close> that \<open>reduction\<close> makes has a positive second argument
  (and a first argument that is not negative); its first \<open>%\<close> is defined, and the call
  returns a (positive) result: the loop, whose recursion is well-founded on \<open>\<bar>r\<bar>\<close>,
  never divides by zero and reaches remainder \<open>0\<close>.
\<close>

theorem PGCD_calls_terminate:
  assumes "PGCD_call f = Some (f1, a, b)"
  shows "0 < b \<and> (\<exists>r. modT a b = Some r) \<and> (\<exists>g. PGCD a b = Some g \<and> 0 < g)"
proof -
  from PGCD_call_args [OF assms] have a: "0 \<le> a" and b: "0 < b" by simp_all
  have "modT a b = Some (a smod b)"
    using b by (simp add: modT_def)
  moreover have "PGCD a b = Some (gcd a b)" and "0 < gcd a b"
    using a b by (simp_all add: PGCD_gcd)
  ultimately show ?thesis using b by simp
qed

theorem PGCD_calls_terminate_witness:
  "PGCD_call \<lparr>m_num = 6, m_den = - 4\<rparr> = Some (\<lparr>m_num = - 6, m_den = 4\<rparr>, 6, 4) \<and>
   (0::int) < 4 \<and> modT 6 4 = Some 2 \<and> PGCD 6 4 = Some 2 \<and>
   reduction \<lparr>m_num = 6, m_den = - 4\<rparr> = Some \<lparr>m_num = - 3, m_den = 2\<rparr>"
proof -
  have c: "PGCD_call \<lparr>m_num = 6, m_den = - 4\<rparr> = Some (\<lparr>m_num = - 6, m_den = 4\<rparr>, 6, 4)"
    by code_simp
  have e: "modT 6 4 = Some 2" "PGCD 6 4 = Some 2"
    "reduction \<lparr>m_num = 6, m_den = - 4\<rparr> = Some \<lparr>m_num = - 3, m_den = 2\<rparr>"
    by code_simp+
  show ?thesis
    using c e PGCD_calls_terminate [OF c] by simp
qed

section \<open>Not-a-number is absorbing\<close>

lemma addT_zero: "addT 0 0 = Some 0" "subT 0 0 = Some 0"
  by (simp_all add: addT_def subT_def in_T_simps)

lemma op_add_assign_NaN:
  assumes "isNan (s this) \<or> isNan (s f)"
  shows "\<exists>s'. op_add_assign this f s = Some s' \<and> s' this = \<lparr>m_num = 0, m_den = 0\<rparr>"
  using assms
  by (auto simp: op_add_assign_def store_defs isNan_def mulT_zero addT_zero reduction_nonfinite)

lemma op_sub_assign_NaN:
  assumes "isNan (s this) \<or> isNan (s f)"
  shows "\<exists>s'. op_sub_assign this f s = Some s' \<and> s' this = \<lparr>m_num = 0, m_den = 0\<rparr>"
  using assms
  by (auto simp: op_sub_assign_def store_defs isNan_def mulT_zero addT_zero reduction_nonfinite)

lemma op_mul_assign_NaN:
  assumes "isNan (s this) \<or> isNan (s f)"
  shows "\<exists>s'. op_mul_assign this f s = Some s' \<and> s' this = \<lparr>m_num = 0, m_den = 0\<rparr>"
  using assms
  by (auto simp: op_mul_assign_def store_defs isNan_def mulT_zero reduction_nonfinite)

lemma op_div_assign_NaN:
  assumes "isNan (s this) \<or> isNan (s f)"
  shows "\<exists>s'. op_div_assign this f s = Some s' \<and> s' this = \<lparr>m_num = 0, m_den = 0\<rparr>"
  using assms
  by (auto simp: op_div_assign_def store_defs isNan_def mulT_zero reduction_nonfinite)

lemma locals_NaN: "isNan a \<or> isNan b \<Longrightarrow> isNan (locals a b 0) \<or> isNan (locals a b 1)"
  by (simp add: locals_def)

text \<open>
  C10. If either operand of \<open>+\<close>, \<open>-\<close>, \<open>*\<close>, \<open>/\<close> or of \<open>+=\<close>, \<open>-=\<close>, \<open>*=\<close>, \<open>/=\<close> is
  not-a-number, the pair \<open>(0, 0)\<close>, the operation returns and its result is \<open>(0, 0)\<close>;
  for the compound assignments also when the argument is the receiver itself.
\<close>

theorem NaN_absorbing:
  "(isNan (s this) \<or> isNan (s f) \<longrightarrow>
      (\<exists>s'. op_add_assign this f s = Some s' \<and> s' this = \<lparr>m_num = 0, m_den = 0\<rparr>) \<and>
      (\<exists>s'. op_sub_assign this f s = Some s' \<and> s' this = \<lparr>m_num = 0, m_den = 0\<rparr>) \<and>
      (\<exists>s'. op_mul_assign this f s = Some s' \<and> s' this = \<lparr>m_num = 0, m_den = 0\<rparr>) \<and>
      (\<exists>s'. op_div_assign this f s = Some s' \<and> s' this = \<lparr>m_num = 0, m_den = 0\<rparr>)) \<and>
   (isNan a \<or> isNan b \<longrightarrow>
      op_add a b = Some \<lparr>m_num = 0, m_den = 0\<rparr> \<and>
      op_sub a b = Some \<lparr>m_num = 0, m_den = 0\<rparr> \<and>
      op_mul a b = Some \<lparr>m_num = 0, m_den = 0\<rparr> \<and>
      op_div a b = Some \<lparr>m_num = 0, m_den = 0\<rparr>)"
proof (intro conjI impI)
  assume "isNan (s this) \<or> isNan (s f)"
  then show "\<exists>s'. op_add_assign this f s = Some s' \<and> s' this = \<lparr>m_num = 0, m_den = 0\<rparr>"
    and "\<exists>s'. op_sub_assign this f s = Some s' \<and> s' this = \<lparr>m_num = 0, m_den = 0\<rparr>"
    and "\<exists>s'. op_mul_assign this f s = Some s' \<and> s' this = \<lparr>m_num = 0, m_den = 0\<rparr>"
    and "\<exists>s'. op_div_assign this f s = Some s' \<and> s' this = \<lparr>m_num = 0, m_den = 0\<rparr>"
    by (rule op_add_assign_NaN op_sub_assign_NaN op_mul_assign_NaN op_div_assign_NaN)+
next
  assume "isNan a \<or> isNan b"
  then have n: "isNan (locals a b 0) \<or> isNan (locals a b 1)"
    by (rule locals_NaN)
  show "op_add a b = Some \<lparr>m_num = 0, m_den = 0\<rparr>"
    using op_add_assign_NaN [OF n] by (auto simp: op_add_def)
  show "op_sub a b = Some \<lparr>m_num = 0, m_den = 0\<rparr>"
    using op_sub_assign_NaN [OF n] by (auto simp: op_sub_def)
  show "op_mul a b = Some \<lparr>m_num = 0, m_den = 0\<rparr>"
    using op_mul_assign_NaN [OF n] by (auto simp: op_mul_def)
  show "op_div a b = Some \<lparr>m_num = 0, m_den = 0\<rparr>"
    using op_div_assign_NaN [OF n] by (auto simp: op_div_def)
qed

theorem NaN_absorbing_witness:
  "isNan \<lparr>m_num = 0, m_den = 0\<rparr> \<and>
   Fraction2 0 0 = Some \<lparr>m_num = 0, m_den = 0\<rparr> \<and>
   op_add \<lparr>m_num = 0, m_den = 0\<rparr> \<lparr>m_num = 2, m_den = 3\<rparr> = Some \<lparr>m_num = 0, m_den = 0\<rparr> \<and>
   op_sub \<lparr>m_num = 0, m_den = 0\<rparr> \<lparr>m_num = 2, m_den = 3\<rparr> = Some \<lparr>m_num = 0, m_den = 0\<rparr> \<and>
   op_mul \<lparr>m_num = 0, m_den = 0\<rparr> \<lparr>m_num = 2, m_den = 3\<rparr> = Some \<lparr>m_num = 0, m_den = 0\<rparr> \<and>
   op_div \<lparr>m_num = 0, m_den = 0\<rparr> \<lparr>m_num = 2, m_den = 3\<rparr> = Some \<lparr>m_num = 0, m_den = 0\<rparr> \<and>
   op_add \<lparr>m_num = 1, m_den = 0\<rparr> \<lparr>m_num = 0, m_den = 0\<rparr> = Some \<lparr>m_num = 0, m_den = 0\<rparr> \<and>
   op_sub \<lparr>m_num = 1, m_den = 0\<rparr> \<lparr>m_num = 0, m_den = 0\<rparr> = Some \<lparr>m_num = 0, m_den = 0\<rparr> \<and>
   op_mul \<lparr>m_num = 1, m_den = 0\<rparr> \<lparr>m_num = 0, m_den = 0\<rparr> = Some \<lparr>m_num = 0, m_den = 0\<rparr> \<and>
   op_div \<lparr>m_num = 1, m_den = 0\<rparr> \<lparr>m_num = 0, m_den = 0\<rparr> = Some \<lparr>m_num = 0, m_den = 0\<rparr> \<and>
   (\<exists>s'. op_div_assign 0 0 (\<lambda>p. \<lparr>m_num = 0, m_den = 0\<rparr>) = Some s' \<and>
      s' 0 = \<lparr>m_num = 0, m_den = 0\<rparr>)"
proof -
  have n: "isNan \<lparr>m_num = 0, m_den = 0\<rparr>"
    by (simp add: isNan_def)
  have c: "Fraction2 0 0 = Some \<lparr>m_num = 0, m_den = 0\<rparr>"
    by code_simp
  show ?thesis
    using n c
      NaN_absorbing [of "\<lambda>p. \<lparr>m_num = 0, m_den = 0\<rparr>" 0 0
        "\<lparr>m_num = 0, m_den = 0\<rparr>" "\<lparr>m_num = 2, m_den = 3\<rparr>"]
      NaN_absorbing [of "\<lambda>p. \<lparr>m_num = 0, m_den = 0\<rparr>" 0 0
        "\<lparr>m_num = 1, m_den = 0\<rparr>" "\<lparr>m_num = 0, m_den = 0\<rparr>"]
    by simp
qed

end
